theory Spec2Isabelle
  imports Main "HOL-Library.Word"
begin

unbundle bit_operations_syntax

section \<open>Python values used by the two scripts\<close>

text \<open>
  A Python \<open>bytes\<close> object is a list of 8-bit words.  A Python \<open>str\<close> that the scripts
  produce themselves (hexadecimal tokens, base64 text, SQL text values) consists of ASCII
  characters only and is a \<open>string\<close>, one \<open>char\<close> per code point.
\<close>

type_synonym byte = "8 word"
type_synonym bytes = "byte list"

subsection \<open>The \<open>secrets\<close> module\<close>

text \<open>
  \<open>secrets.token_bytes(n)\<close> reads \<open>n\<close> bytes from the operating system's random source.
  The source is an explicit state: an unbounded supply of bytes and the position of the
  next unread one.  Every call returns the bytes it read together with the advanced state.
\<close>

record rng =
  source :: "nat \<Rightarrow> byte"
  pos :: nat

definition token_bytes :: "nat \<Rightarrow> rng \<Rightarrow> bytes \<times> rng" where
  "token_bytes n r = (map (source r) [pos r ..< pos r + n], r\<lparr>pos := pos r + n\<rparr>)"

definition hexdigit :: "nat \<Rightarrow> char" where
  "hexdigit n = ''0123456789abcdef'' ! n"

text \<open>\<open>binascii.hexlify\<close>: two lowercase hexadecimal digits per byte, high nibble first.\<close>

definition hexlify :: "bytes \<Rightarrow> string" where
  "hexlify bs = concat (map (\<lambda>b. [hexdigit (unat b div 16), hexdigit (unat b mod 16)]) bs)"

text \<open>\<open>secrets.token_hex(n)\<close> is \<open>binascii.hexlify(token_bytes(n)).decode('ascii')\<close>.\<close>

definition token_hex :: "nat \<Rightarrow> rng \<Rightarrow> string \<times> rng" where
  "token_hex n r = (case token_bytes n r of (bs, r') \<Rightarrow> (hexlify bs, r'))"

text \<open>\<open>str.upper()\<close> on ASCII text: the letters a to z move to A to Z, all else stays.\<close>

definition upper_char :: "char \<Rightarrow> char" where
  "upper_char c =
     (let n = (of_char c :: nat) in if 97 \<le> n \<and> n \<le> 122 then char_of (n - 32) else c)"

definition upper :: "string \<Rightarrow> string" where
  "upper s = map upper_char s"

text \<open>The uppercase hexadecimal digits.\<close>

definition hexdigits_upper :: "char set" where
  "hexdigits_upper = set ''0123456789ABCDEF''"

section \<open>The license key generator\<close>

text \<open>
  \<^verbatim>\<open>generate_license.py\<close>:
  \<^verbatim>\<open>def generate_license_key(): return secrets.token_hex(32).upper()\<close>
\<close>

definition generate_license_key :: "rng \<Rightarrow> string \<times> rng" where
  "generate_license_key r = (case token_hex 32 r of (s, r') \<Rightarrow> (upper s, r'))"

text \<open>\<^verbatim>\<open>setup_database.py\<close> defines a function of the same name with the same body.\<close>

definition setup_generate_license_key :: "rng \<Rightarrow> string \<times> rng" where
  "setup_generate_license_key r = (case token_hex 32 r of (s, r') \<Rightarrow> (upper s, r'))"

section \<open>Properties of the license key generator\<close>

lemma length_token_bytes: "length (fst (token_bytes n r)) = n"
  by (simp add: token_bytes_def)

lemma snd_token_bytes: "snd (token_bytes n r) = r\<lparr>pos := pos r + n\<rparr>"
  by (simp add: token_bytes_def)

lemma length_hexlify: "length (hexlify bs) = 2 * length bs"
  by (induction bs) (simp_all add: hexlify_def)

lemma upper_hexdigit_table:
  "\<forall>n \<in> set [0 ..< 16]. upper_char (hexdigit n) = ''0123456789ABCDEF'' ! n"
  by code_simp

lemma upper_hexdigit_cases:
  "n < 16 \<Longrightarrow> upper_char (hexdigit n) = ''0123456789ABCDEF'' ! n"
  using upper_hexdigit_table by simp

lemma upper_hexdigit_in:
  "n < 16 \<Longrightarrow> upper_char (hexdigit n) \<in> hexdigits_upper"
proof -
  assume n: "n < 16"
  then have "n < length ''0123456789ABCDEF''" by simp
  then have "''0123456789ABCDEF'' ! n \<in> set ''0123456789ABCDEF''"
    by (rule nth_mem)
  with n show ?thesis
    unfolding hexdigits_upper_def by (simp only: upper_hexdigit_cases)
qed

lemma upper_hexlify_Cons:
  "upper (hexlify (b # bs)) =
     upper_char (hexdigit (unat b div 16)) # upper_char (hexdigit (unat b mod 16))
       # upper (hexlify bs)"
  by (simp add: upper_def hexlify_def)

lemma byte_hi: "unat (b :: byte) div 16 < 16"
  using unsigned_less [of b, where ?'a = nat] by simp

lemma byte_lo: "unat (b :: byte) mod 16 < 16"
  by simp

lemma set_upper_hexlify: "set (upper (hexlify bs)) \<subseteq> hexdigits_upper"
proof (induction bs)
  case Nil
  show ?case by (simp add: upper_def hexlify_def)
next
  case (Cons b bs)
  from Cons upper_hexdigit_in [OF byte_hi [of b]] upper_hexdigit_in [OF byte_lo [of b]]
  show ?case
    by (simp only: upper_hexlify_Cons set_simps insert_subset simp_thms)
qed

text \<open>The value of an uppercase hexadecimal digit, to read a key back into its bytes.\<close>

definition hexval :: "char \<Rightarrow> nat" where
  "hexval c = (let n = (of_char c :: nat) in if n < 58 then n - 48 else n - 55)"

fun unhexlify :: "string \<Rightarrow> bytes" where
  "unhexlify (h # l # cs) = of_nat (16 * hexval h + hexval l) # unhexlify cs"
| "unhexlify _ = []"

lemma hexval_upper_hexdigit_table:
  "\<forall>n \<in> set [0 ..< 16]. hexval (upper_char (hexdigit n)) = n"
  by (simp add: upt_conv_Cons hexval_def upper_char_def hexdigit_def)

lemma hexval_upper_hexdigit: "n < 16 \<Longrightarrow> hexval (upper_char (hexdigit n)) = n"
  using hexval_upper_hexdigit_table by simp

lemma unhexlify_upper_hexlify: "unhexlify (upper (hexlify bs)) = bs"
proof (induction bs)
  case Nil
  show ?case by (simp add: upper_def hexlify_def)
next
  case (Cons b bs)
  have "(of_nat (16 * (unat b div 16) + unat b mod 16) :: byte) = b"
    by simp
  with Cons show ?case
    by (simp only: upper_hexlify_Cons unhexlify.simps
        hexval_upper_hexdigit [OF byte_hi] hexval_upper_hexdigit [OF byte_lo])
qed

lemma generate_license_key_eq:
  "generate_license_key r = (upper (hexlify (fst (token_bytes 32 r))), r\<lparr>pos := pos r + 32\<rparr>)"
  by (simp add: generate_license_key_def token_hex_def token_bytes_def)

lemma setup_generate_license_key_eq: "setup_generate_license_key = generate_license_key"
  by (rule ext) (simp add: setup_generate_license_key_def generate_license_key_def)

text \<open>
  Claim C5.  Both definitions of \<open>generate_license_key\<close> return, for every state of the
  random source, a string of exactly 64 characters, each of them an uppercase hexadecimal
  digit.  The string is the hexadecimal image of the 32 bytes of the random source that
  start at its current position: reading the key back as hexadecimal gives exactly those
  32 source bytes, so all 256 bits are in the key, and the call leaves the source 32 bytes
  further on.
\<close>

theorem license_key_format:
  fixes r :: rng
  assumes "g = generate_license_key \<or> g = setup_generate_license_key"
  shows "length (fst (g r)) = 64
       \<and> set (fst (g r)) \<subseteq> set ''0123456789ABCDEF''
       \<and> unhexlify (fst (g r)) = map (source r) [pos r ..< pos r + 32]
       \<and> length (map (source r) [pos r ..< pos r + 32]) = 32
       \<and> snd (g r) = r\<lparr>pos := pos r + 32\<rparr>"
proof -
  from assms have g: "g = generate_license_key"
    by (auto simp: setup_generate_license_key_eq)
  have tb: "fst (token_bytes 32 r) = map (source r) [pos r ..< pos r + 32]"
    by (simp add: token_bytes_def)
  have len: "length (upper (hexlify (fst (token_bytes 32 r)))) = 64"
    by (simp add: upper_def length_hexlify length_token_bytes)
  have len32: "length (map (source r) [pos r ..< pos r + 32]) = 32"
    by simp
  have chars: "set (upper (hexlify (fst (token_bytes 32 r)))) \<subseteq> set ''0123456789ABCDEF''"
    using set_upper_hexlify [of "fst (token_bytes 32 r)"]
    by (simp only: hexdigits_upper_def)
  have decoded: "unhexlify (upper (hexlify (fst (token_bytes 32 r))))
      = map (source r) [pos r ..< pos r + 32]"
    by (simp only: unhexlify_upper_hexlify tb)
  show ?thesis
    unfolding g generate_license_key_eq fst_conv snd_conv
    using len chars decoded len32 by blast
qed

theorem license_key_format_witness:
  "(generate_license_key = generate_license_key \<or> generate_license_key = setup_generate_license_key)
   \<and> length (fst (generate_license_key \<lparr>source = of_nat, pos = 7\<rparr>)) = 64
   \<and> set (fst (generate_license_key \<lparr>source = of_nat, pos = 7\<rparr>))
        \<subseteq> set ''0123456789ABCDEF''
   \<and> unhexlify (fst (generate_license_key \<lparr>source = of_nat, pos = 7\<rparr>))
        = map of_nat [7 ..< 39]
   \<and> snd (generate_license_key \<lparr>source = of_nat, pos = 7\<rparr>)
        = \<lparr>source = of_nat, pos = 39\<rparr>"
proof -
  have "generate_license_key = generate_license_key \<or> generate_license_key = setup_generate_license_key"
    by (rule disjI1) (rule refl)
  from license_key_format [OF this, of "\<lparr>source = of_nat, pos = 7\<rparr>"]
  show ?thesis
    by (simp only: rng.simps simp_thms)
       (simp del: upt_rec_numeral)
qed

section \<open>The credential hasher\<close>

text \<open>
  The secret handed to \<open>generate_secure_hash\<close> is an arbitrary Python \<open>str\<close>: a list of
  Unicode code points, lone surrogates included.  Library calls that raise are functions
  into a sum type whose left injection carries the exception.
\<close>

type_synonym pystr = "nat list"

datatype error = UnicodeEncodeError | ValueError | BinasciiError

subsection \<open>\<open>str.encode()\<close>\<close>

text \<open>
  \<open>data.encode()\<close> encodes as UTF-8 with strict error handling: one to four bytes per code
  point, and \<open>UnicodeEncodeError\<close> for a surrogate (U+D800 to U+DFFF).
\<close>

definition encode_char :: "nat \<Rightarrow> error + bytes" where
  "encode_char c =
     (if c < 0x80 then Inr [of_nat c]
      else if c < 0x800 then Inr [of_nat (0xC0 + c div 64), of_nat (0x80 + c mod 64)]
      else if 0xD800 \<le> c \<and> c \<le> 0xDFFF then Inl UnicodeEncodeError
      else if c < 0x10000 then
        Inr [of_nat (0xE0 + c div 4096), of_nat (0x80 + c div 64 mod 64), of_nat (0x80 + c mod 64)]
      else if c < 0x110000 then
        Inr [of_nat (0xF0 + c div 262144), of_nat (0x80 + c div 4096 mod 64),
             of_nat (0x80 + c div 64 mod 64), of_nat (0x80 + c mod 64)]
      else Inl UnicodeEncodeError)"

fun encode :: "pystr \<Rightarrow> error + bytes" where
  "encode [] = Inr []"
| "encode (c # cs) =
     (case encode_char c of
        Inl e \<Rightarrow> Inl e
      | Inr bs \<Rightarrow> (case encode cs of Inl e \<Rightarrow> Inl e | Inr rest \<Rightarrow> Inr (bs @ rest)))"

subsection \<open>SHA-256\<close>

text \<open>
  \<open>hashlib.pbkdf2_hmac('sha256', ...)\<close> runs HMAC over SHA-256 (FIPS 180-4): 32-bit words
  with wrap-around addition, 64-byte blocks, a 32-byte digest.
\<close>

type_synonym u32 = "32 word"

definition rotr :: "nat \<Rightarrow> u32 \<Rightarrow> u32" where
  "rotr n x = drop_bit n x OR push_bit (32 - n) x"

definition Ch :: "u32 \<Rightarrow> u32 \<Rightarrow> u32 \<Rightarrow> u32" where
  "Ch x y z = (x AND y) XOR (NOT x AND z)"

definition Maj :: "u32 \<Rightarrow> u32 \<Rightarrow> u32 \<Rightarrow> u32" where
  "Maj x y z = (x AND y) XOR (x AND z) XOR (y AND z)"

definition bsig0 :: "u32 \<Rightarrow> u32" where
  "bsig0 x = rotr 2 x XOR rotr 13 x XOR rotr 22 x"

definition bsig1 :: "u32 \<Rightarrow> u32" where
  "bsig1 x = rotr 6 x XOR rotr 11 x XOR rotr 25 x"

definition ssig0 :: "u32 \<Rightarrow> u32" where
  "ssig0 x = rotr 7 x XOR rotr 18 x XOR drop_bit 3 x"

definition ssig1 :: "u32 \<Rightarrow> u32" where
  "ssig1 x = rotr 17 x XOR rotr 19 x XOR drop_bit 10 x"

definition K256 :: "u32 list" where
  "K256 =
   [0x428A2F98, 0x71374491, 0xB5C0FBCF, 0xE9B5DBA5, 0x3956C25B, 0x59F111F1, 0x923F82A4, 0xAB1C5ED5,
    0xD807AA98, 0x12835B01, 0x243185BE, 0x550C7DC3, 0x72BE5D74, 0x80DEB1FE, 0x9BDC06A7, 0xC19BF174,
    0xE49B69C1, 0xEFBE4786, 0x0FC19DC6, 0x240CA1CC, 0x2DE92C6F, 0x4A7484AA, 0x5CB0A9DC, 0x76F988DA,
    0x983E5152, 0xA831C66D, 0xB00327C8, 0xBF597FC7, 0xC6E00BF3, 0xD5A79147, 0x06CA6351, 0x14292967,
    0x27B70A85, 0x2E1B2138, 0x4D2C6DFC, 0x53380D13, 0x650A7354, 0x766A0ABB, 0x81C2C92E, 0x92722C85,
    0xA2BFE8A1, 0xA81A664B, 0xC24B8B70, 0xC76C51A3, 0xD192E819, 0xD6990624, 0xF40E3585, 0x106AA070,
    0x19A4C116, 0x1E376C08, 0x2748774C, 0x34B0BCB5, 0x391C0CB3, 0x4ED8AA4A, 0x5B9CCA4F, 0x682E6FF3,
    0x748F82EE, 0x78A5636F, 0x84C87814, 0x8CC70208, 0x90BEFFFA, 0xA4506CEB, 0xBEF9A3F7, 0xC67178F2]"

type_synonym sha_state = "u32 \<times> u32 \<times> u32 \<times> u32 \<times> u32 \<times> u32 \<times> u32 \<times> u32"

definition H256_init :: sha_state where
  "H256_init = (0x6A09E667, 0xBB67AE85, 0x3C6EF372, 0xA54FF53A,
                0x510E527F, 0x9B05688C, 0x1F83D9AB, 0x5BE0CD19)"

text \<open>Big-endian byte images of 32-bit and 64-bit words.\<close>

definition be32 :: "u32 \<Rightarrow> bytes" where
  "be32 w = [ucast (drop_bit 24 w), ucast (drop_bit 16 w), ucast (drop_bit 8 w), ucast w]"

definition be64 :: "64 word \<Rightarrow> bytes" where
  "be64 w = [ucast (drop_bit 56 w), ucast (drop_bit 48 w), ucast (drop_bit 40 w),
             ucast (drop_bit 32 w), ucast (drop_bit 24 w), ucast (drop_bit 16 w),
             ucast (drop_bit 8 w), ucast w]"

text \<open>
  Padding: a \<open>0x80\<close> byte, zero bytes up to 56 modulo 64, and the bit length of the message
  as a 64-bit big-endian word.
\<close>

definition sha256_pad :: "bytes \<Rightarrow> bytes" where
  "sha256_pad m =
     m @ [0x80] @ replicate ((119 - length m mod 64) mod 64) 0
       @ be64 (8 * of_nat (length m))"

definition be_word :: "byte \<Rightarrow> byte \<Rightarrow> byte \<Rightarrow> byte \<Rightarrow> u32" where
  "be_word a b c d =
     push_bit 24 (ucast a) OR push_bit 16 (ucast b) OR push_bit 8 (ucast c) OR ucast d"

fun words_of :: "bytes \<Rightarrow> u32 list" where
  "words_of (a # b # c # d # rest) = be_word a b c d # words_of rest"
| "words_of _ = []"

text \<open>The message schedule: \<open>schedule 48\<close> extends the 16 words of a block to 64.\<close>

fun schedule :: "nat \<Rightarrow> u32 list \<Rightarrow> u32 list" where
  "schedule 0 ws = ws"
| "schedule (Suc n) ws =
     schedule n (ws @ [ssig1 (ws ! (length ws - 2)) + ws ! (length ws - 7)
                         + ssig0 (ws ! (length ws - 15)) + ws ! (length ws - 16)])"

fun sha_round :: "sha_state \<Rightarrow> u32 \<times> u32 \<Rightarrow> sha_state" where
  "sha_round (a, b, c, d, e, f, g, h) (k, w) =
     (let t1 = h + bsig1 e + Ch e f g + k + w;
          t2 = bsig0 a + Maj a b c
      in (t1 + t2, a, b, c, d + t1, e, f, g))"

fun add_state :: "sha_state \<Rightarrow> sha_state \<Rightarrow> sha_state" where
  "add_state (a, b, c, d, e, f, g, h) (a', b', c', d', e', f', g', h') =
     (a + a', b + b', c + c', d + d', e + e', f + f', g + g', h + h')"

definition compress :: "sha_state \<Rightarrow> bytes \<Rightarrow> sha_state" where
  "compress st block =
     add_state st (foldl sha_round st (zip K256 (schedule 48 (words_of block))))"

function blocks_of :: "bytes \<Rightarrow> bytes list" where
  "blocks_of m = (if length m < 64 then [] else take 64 m # blocks_of (drop 64 m))"
  by pat_completeness auto
termination
  by (relation "measure length") auto

fun digest_of :: "sha_state \<Rightarrow> bytes" where
  "digest_of (a, b, c, d, e, f, g, h) =
     be32 a @ be32 b @ be32 c @ be32 d @ be32 e @ be32 f @ be32 g @ be32 h"

definition sha256 :: "bytes \<Rightarrow> bytes" where
  "sha256 m = digest_of (foldl compress H256_init (blocks_of (sha256_pad m)))"

subsection \<open>HMAC-SHA256\<close>

text \<open>
  The key is brought to the block size of 64 bytes: a longer key is replaced by its
  digest, and the result is filled up with zero bytes.
\<close>

definition hmac_key_block :: "bytes \<Rightarrow> bytes" where
  "hmac_key_block key =
     (let k = (if length key > 64 then sha256 key else key)
      in k @ replicate (64 - length k) 0)"

definition hmac_sha256 :: "bytes \<Rightarrow> bytes \<Rightarrow> bytes" where
  "hmac_sha256 key msg =
     (let k0 = hmac_key_block key
      in sha256 (map (\<lambda>b. b XOR 0x5c) k0 @ sha256 (map (\<lambda>b. b XOR 0x36) k0 @ msg)))"

subsection \<open>\<open>hashlib.pbkdf2_hmac\<close>\<close>

text \<open>
  With \<open>dklen=None\<close> the derived key has the digest size, so a single block is computed:
  the first HMAC is taken over the salt followed by the block number 1 as a 32-bit
  big-endian word, every further one over the previous result, and all results are
  combined by exclusive or.  The loop below runs \<open>iterations - 1\<close> times after the first
  HMAC.
\<close>

definition xor_bytes :: "bytes \<Rightarrow> bytes \<Rightarrow> bytes" where
  "xor_bytes xs ys = map2 (XOR) xs ys"

fun pbkdf2_loop :: "(bytes \<Rightarrow> bytes) \<Rightarrow> nat \<Rightarrow> bytes \<Rightarrow> bytes \<Rightarrow> bytes" where
  "pbkdf2_loop prf 0 u t = t"
| "pbkdf2_loop prf (Suc n) u t = (let u' = prf u in pbkdf2_loop prf n u' (xor_bytes t u'))"

definition pbkdf2_block :: "bytes \<Rightarrow> bytes \<Rightarrow> nat \<Rightarrow> bytes" where
  "pbkdf2_block password salt iterations =
     (let u1 = hmac_sha256 password (salt @ be32 1)
      in pbkdf2_loop (hmac_sha256 password) (iterations - 1) u1 u1)"

text \<open>\<open>hashlib.pbkdf2_hmac\<close> raises \<open>ValueError\<close> for an iteration count below 1.\<close>

definition pbkdf2_hmac_sha256 :: "bytes \<Rightarrow> bytes \<Rightarrow> nat \<Rightarrow> error + bytes" where
  "pbkdf2_hmac_sha256 password salt iterations =
     (if iterations < 1 then Inl ValueError
      else Inr (pbkdf2_block password salt iterations))"

subsection \<open>\<open>base64.b64encode\<close>\<close>

text \<open>
  Three bytes become four characters of the standard alphabet; a final group of one or
  two bytes is padded with \<open>=\<close>.
\<close>

definition b64char :: "nat \<Rightarrow> char" where
  "b64char n = ''ABCDEFGHIJKLMNOPQRSTUVWXYZabcdefghijklmnopqrstuvwxyz0123456789+/'' ! n"

fun b64encode :: "bytes \<Rightarrow> string" where
  "b64encode [] = []"
| "b64encode [a] =
     (let x = unat a in [b64char (x div 4), b64char (x mod 4 * 16), CHR ''='', CHR ''=''])"
| "b64encode [a, b] =
     (let x = unat a; y = unat b
      in [b64char (x div 4), b64char (x mod 4 * 16 + y div 16), b64char (y mod 16 * 4),
          CHR ''=''])"
| "b64encode (a # b # c # rest) =
     (let x = unat a; y = unat b; z = unat c
      in [b64char (x div 4), b64char (x mod 4 * 16 + y div 16),
          b64char (y mod 16 * 4 + z div 64), b64char (z mod 64)]) @ b64encode rest"

subsection \<open>\<open>generate_secure_hash\<close>\<close>

text \<open>
  \<^verbatim>\<open>def generate_secure_hash(data, salt=None):\<close>
  \<^verbatim>\<open>    if salt is None: salt = secrets.token_bytes(32)\<close>
  \<^verbatim>\<open>    key = hashlib.pbkdf2_hmac('sha256', data.encode(), salt, 100000)\<close>
  \<^verbatim>\<open>    return base64.b64encode(salt + key).decode('utf-8')\<close>

  The salt is drawn before the secret is encoded, so the random source has advanced also
  when \<open>data.encode()\<close> raises.  The base64 text is ASCII, its decoding as UTF-8 cannot fail.
\<close>

definition generate_secure_hash :: "pystr \<Rightarrow> bytes option \<Rightarrow> rng \<Rightarrow> (error + string) \<times> rng" where
  "generate_secure_hash data salt r =
     (case (case salt of None \<Rightarrow> token_bytes 32 r | Some s \<Rightarrow> (s, r)) of
        (salt', r') \<Rightarrow>
          (case encode data of
             Inl e \<Rightarrow> (Inl e, r')
           | Inr pw \<Rightarrow>
               (case pbkdf2_hmac_sha256 pw salt' 100000 of
                  Inl e \<Rightarrow> (Inl e, r')
                | Inr key \<Rightarrow> (Inr (b64encode (salt' @ key)), r'))))"

section \<open>Reading a verifier back\<close>

text \<open>
  The verifier is a base64 text.  To state what it contains it is decoded again, by the
  strict decoder of RFC 4648: groups of four alphabet characters, padding only in the
  last group, \<open>binascii.Error\<close> for anything else.  On the texts that \<open>b64encode\<close> produces
  it agrees with \<open>base64.b64decode\<close>.
\<close>

definition b64index :: "char \<Rightarrow> nat option" where
  "b64index c =
     (let n = (of_char c :: nat)
      in if 65 \<le> n \<and> n \<le> 90 then Some (n - 65)
         else if 97 \<le> n \<and> n \<le> 122 then Some (n - 71)
         else if 48 \<le> n \<and> n \<le> 57 then Some (n + 4)
         else if n = 43 then Some 62
         else if n = 47 then Some 63
         else None)"

definition b64_last :: "char \<Rightarrow> char \<Rightarrow> char \<Rightarrow> error + bytes" where
  "b64_last c0 c1 c2 =
     (case b64index c0 of
        None \<Rightarrow> Inl BinasciiError
      | Some i0 \<Rightarrow>
          (case b64index c1 of
             None \<Rightarrow> Inl BinasciiError
           | Some i1 \<Rightarrow>
               (if c2 = CHR ''='' then Inr [of_nat (i0 * 4 + i1 div 16)]
                else (case b64index c2 of
                        None \<Rightarrow> Inl BinasciiError
                      | Some i2 \<Rightarrow>
                          Inr [of_nat (i0 * 4 + i1 div 16), of_nat (i1 mod 16 * 16 + i2 div 4)]))))"

definition b64_group :: "char \<Rightarrow> char \<Rightarrow> char \<Rightarrow> char \<Rightarrow> error + bytes" where
  "b64_group c0 c1 c2 c3 =
     (case b64index c0 of
        None \<Rightarrow> Inl BinasciiError
      | Some i0 \<Rightarrow>
          (case b64index c1 of
             None \<Rightarrow> Inl BinasciiError
           | Some i1 \<Rightarrow>
               (case b64index c2 of
                  None \<Rightarrow> Inl BinasciiError
                | Some i2 \<Rightarrow>
                    (case b64index c3 of
                       None \<Rightarrow> Inl BinasciiError
                     | Some i3 \<Rightarrow>
                         Inr [of_nat (i0 * 4 + i1 div 16), of_nat (i1 mod 16 * 16 + i2 div 4),
                              of_nat (i2 mod 4 * 64 + i3)]))))"

fun b64decode :: "string \<Rightarrow> error + bytes" where
  "b64decode [] = Inr []"
| "b64decode (c0 # c1 # c2 # c3 # rest) =
     (if rest = [] \<and> c3 = CHR ''='' then b64_last c0 c1 c2
      else (case b64_group c0 c1 c2 c3 of
              Inl e \<Rightarrow> Inl e
            | Inr g \<Rightarrow> (case b64decode rest of Inl e \<Rightarrow> Inl e | Inr bs \<Rightarrow> Inr (g @ bs))))"
| "b64decode _ = Inl BinasciiError"

subsection \<open>Sextets and octets\<close>

lemma div16_bound: "(y :: nat) < 256 \<Longrightarrow> y div 16 < 16"
  by (rule less_mult_imp_div_less) simp

lemma div64_bound: "(z :: nat) < 256 \<Longrightarrow> z div 64 < 4"
  by (rule less_mult_imp_div_less) simp

lemma div4_bound: "(x :: nat) < 256 \<Longrightarrow> x div 4 < 64"
  by (rule less_mult_imp_div_less) simp

lemma pack_4_16: "(a :: nat) < 4 \<Longrightarrow> b < 16 \<Longrightarrow> a * 16 + b < 64"
  by linarith

lemma pack_16_4: "(a :: nat) < 16 \<Longrightarrow> b < 4 \<Longrightarrow> a * 4 + b < 64"
  by linarith

lemma unpack_16: "(b :: nat) < 16 \<Longrightarrow> (a * 16 + b) div 16 = a \<and> (a * 16 + b) mod 16 = b"
  by simp

lemma unpack_4: "(b :: nat) < 4 \<Longrightarrow> (a * 4 + b) div 4 = a \<and> (a * 4 + b) mod 4 = b"
  by simp

lemma sextet1: "(y :: nat) < 256 \<Longrightarrow> x mod 4 * 16 + y div 16 < 64"
  by (rule pack_4_16) (simp_all add: div16_bound)

lemma sextet2: "(z :: nat) < 256 \<Longrightarrow> y mod 16 * 4 + z div 64 < 64"
  by (rule pack_16_4) (simp_all add: div64_bound)

lemma sextet1': "(x :: nat) mod 4 * 16 < 64"
  using pack_4_16 [of "x mod 4" 0] by simp

lemma sextet2': "(y :: nat) mod 16 * 4 < 64"
  using pack_16_4 [of "y mod 16" 0] by simp

lemma octet1: "(y :: nat) < 256 \<Longrightarrow> x div 4 * 4 + (x mod 4 * 16 + y div 16) div 16 = x"
  using unpack_16 [of "y div 16" "x mod 4"] div16_bound [of y] by simp

lemma octet2: "(y :: nat) < 256 \<Longrightarrow> z < 256 \<Longrightarrow>
    (x mod 4 * 16 + y div 16) mod 16 * 16 + (y mod 16 * 4 + z div 64) div 4 = y"
  using unpack_16 [of "y div 16" "x mod 4"] div16_bound [of y]
    unpack_4 [of "z div 64" "y mod 16"] div64_bound [of z] by simp

lemma octet3: "(z :: nat) < 256 \<Longrightarrow> (y mod 16 * 4 + z div 64) mod 4 * 64 + z mod 64 = z"
  using unpack_4 [of "z div 64" "y mod 16"] div64_bound [of z] by simp

lemma octet1': "(x :: nat) div 4 * 4 + (x mod 4 * 16) div 16 = x"
  by simp

lemma octet2': "(y :: nat) < 256 \<Longrightarrow>
    (x mod 4 * 16 + y div 16) mod 16 * 16 + (y mod 16 * 4) div 4 = y"
  using unpack_16 [of "y div 16" "x mod 4"] div16_bound [of y] by simp

lemma b64index_b64char_table: "\<forall>n \<in> set [0 ..< 64]. b64index (b64char n) = Some n"
  by (simp add: upt_conv_Cons b64index_def b64char_def)

lemma b64index_b64char: "n < 64 \<Longrightarrow> b64index (b64char n) = Some n"
  using b64index_b64char_table by simp

lemma b64index_pad: "b64index (CHR ''='') = None"
  by (simp add: b64index_def)

lemma b64char_not_pad: "n < 64 \<Longrightarrow> b64char n \<noteq> CHR ''=''"
  using b64index_b64char [of n] b64index_pad by auto

lemma unat_byte_less: "unat (a :: byte) < 256"
  using unsigned_less [of a, where ?'a = nat] by simp

lemma byte_of_octet1:
  fixes a b :: byte
  shows "(of_nat (unat a div 4 * 4 + (unat a mod 4 * 16 + unat b div 16) div 16) :: byte) = a"
proof -
  have "unat a div 4 * 4 + (unat a mod 4 * 16 + unat b div 16) div 16 = unat a"
    by (rule octet1) (rule unat_byte_less)
  then show ?thesis by (simp only:) simp
qed

lemma byte_of_octet2:
  fixes a b c :: byte
  shows "(of_nat ((unat a mod 4 * 16 + unat b div 16) mod 16 * 16
      + (unat b mod 16 * 4 + unat c div 64) div 4) :: byte) = b"
proof -
  have "(unat a mod 4 * 16 + unat b div 16) mod 16 * 16
      + (unat b mod 16 * 4 + unat c div 64) div 4 = unat b"
    by (rule octet2) (rule unat_byte_less)+
  then show ?thesis by (simp only:) simp
qed

lemma byte_of_octet3:
  fixes b c :: byte
  shows "(of_nat ((unat b mod 16 * 4 + unat c div 64) mod 4 * 64 + unat c mod 64) :: byte) = c"
  by (simp only: octet3 [OF unat_byte_less]) simp

lemma byte_of_octet1':
  fixes a :: byte
  shows "(of_nat (unat a div 4 * 4 + (unat a mod 4 * 16) div 16) :: byte) = a"
  by (simp only: octet1') simp

lemma byte_of_octet2':
  fixes a b :: byte
  shows "(of_nat ((unat a mod 4 * 16 + unat b div 16) mod 16 * 16 + (unat b mod 16 * 4) div 4)
      :: byte) = b"
  by (simp only: octet2' [OF unat_byte_less]) simp

subsection \<open>Decoding inverts encoding\<close>

lemma b64_last_one:
  "b64_last (b64char (unat a div 4)) (b64char (unat a mod 4 * 16)) (CHR ''='') = Inr [a]"
proof -
  have i0: "b64index (b64char (unat a div 4)) = Some (unat a div 4)"
    by (rule b64index_b64char) (rule div4_bound [OF unat_byte_less])
  have i1: "b64index (b64char (unat a mod 4 * 16)) = Some (unat a mod 4 * 16)"
    by (rule b64index_b64char) (rule sextet1')
  show ?thesis
    unfolding b64_last_def i0 i1
    by (simp only: option.simps if_True byte_of_octet1' refl)
qed

lemma b64_last_two:
  "b64_last (b64char (unat a div 4)) (b64char (unat a mod 4 * 16 + unat b div 16))
     (b64char (unat b mod 16 * 4)) = Inr [a, b]"
proof -
  have i0: "b64index (b64char (unat a div 4)) = Some (unat a div 4)"
    by (rule b64index_b64char) (rule div4_bound [OF unat_byte_less])
  have i1: "b64index (b64char (unat a mod 4 * 16 + unat b div 16))
      = Some (unat a mod 4 * 16 + unat b div 16)"
    by (rule b64index_b64char) (rule sextet1 [OF unat_byte_less])
  have i2: "b64index (b64char (unat b mod 16 * 4)) = Some (unat b mod 16 * 4)"
    by (rule b64index_b64char) (rule sextet2')
  have np: "(b64char (unat b mod 16 * 4) = CHR ''='') = False"
    using b64char_not_pad [OF sextet2' [of "unat b"]] by simp
  show ?thesis
    unfolding b64_last_def i0 i1 i2
    by (simp only: option.simps np if_False byte_of_octet1 byte_of_octet2')
qed

lemma b64_group_three:
  "b64_group (b64char (unat a div 4)) (b64char (unat a mod 4 * 16 + unat b div 16))
     (b64char (unat b mod 16 * 4 + unat c div 64)) (b64char (unat c mod 64)) = Inr [a, b, c]"
proof -
  have i0: "b64index (b64char (unat a div 4)) = Some (unat a div 4)"
    by (rule b64index_b64char) (rule div4_bound [OF unat_byte_less])
  have i1: "b64index (b64char (unat a mod 4 * 16 + unat b div 16))
      = Some (unat a mod 4 * 16 + unat b div 16)"
    by (rule b64index_b64char) (rule sextet1 [OF unat_byte_less])
  have i2: "b64index (b64char (unat b mod 16 * 4 + unat c div 64))
      = Some (unat b mod 16 * 4 + unat c div 64)"
    by (rule b64index_b64char) (rule sextet2 [OF unat_byte_less])
  have i3: "b64index (b64char (unat c mod 64)) = Some (unat c mod 64)"
    by (rule b64index_b64char) simp
  show ?thesis
    unfolding b64_group_def i0 i1 i2 i3
    by (simp only: option.simps byte_of_octet1 byte_of_octet2 byte_of_octet3)
qed

lemma b64decode_b64encode: "b64decode (b64encode bs) = Inr bs"
proof (induction bs rule: b64encode.induct)
  case 1
  show ?case by simp
next
  case (2 a)
  show ?case by (simp add: Let_def b64_last_one)
next
  case (3 a b)
  show ?case by (simp add: Let_def b64_last_two)
next
  case (4 a b c rest)
  have "b64char (unat c mod 64) \<noteq> CHR ''=''"
    by (rule b64char_not_pad) simp
  with 4 show ?case by (simp add: Let_def b64_group_three)
qed

lemma b64encode_inject: "b64encode xs = b64encode ys \<Longrightarrow> xs = ys"
proof -
  assume "b64encode xs = b64encode ys"
  then have "b64decode (b64encode xs) = b64decode (b64encode ys)" by (rule arg_cong)
  then show "xs = ys" by (simp only: b64decode_b64encode sum.inject)
qed

section \<open>Properties of the credential hasher\<close>

subsection \<open>Lengths\<close>

lemma length_be32: "length (be32 w) = 4"
  by (simp add: be32_def)


lemma length_digest_of: "length (digest_of st) = 32"
  by (induction st rule: digest_of.induct) (simp add: length_be32)

lemma length_sha256: "length (sha256 m) = 32"
  by (simp add: sha256_def length_digest_of)

lemma length_hmac_sha256: "length (hmac_sha256 key msg) = 32"
  by (simp add: hmac_sha256_def Let_def length_sha256)

lemma length_xor_bytes: "length (xor_bytes xs ys) = min (length xs) (length ys)"
  by (simp add: xor_bytes_def)

lemma length_pbkdf2_loop:
  "length t = 32 \<Longrightarrow> (\<And>x. length (prf x) = 32) \<Longrightarrow> length (pbkdf2_loop prf n u t) = 32"
  by (induction n arbitrary: u t) (simp_all add: Let_def length_xor_bytes)

lemma length_pbkdf2_block: "length (pbkdf2_block pw salt n) = 32"
  by (simp add: pbkdf2_block_def Let_def length_pbkdf2_loop length_hmac_sha256)

lemma pbkdf2_hmac_sha256_100000:
  "pbkdf2_hmac_sha256 pw salt 100000 = Inr (pbkdf2_block pw salt 100000)"
  by (simp add: pbkdf2_hmac_sha256_def)

subsection \<open>The derivation as an iterated keyed hash\<close>





subsection \<open>What a call returns\<close>

lemma generate_secure_hash_Some:
  "encode data = Inr pw \<Longrightarrow>
   generate_secure_hash data (Some salt) r
     = (Inr (b64encode (salt @ pbkdf2_block pw salt 100000)), r)"
  by (simp add: generate_secure_hash_def pbkdf2_hmac_sha256_100000)

lemma generate_secure_hash_raises:
  "encode data = Inl e \<Longrightarrow> generate_secure_hash data (Some salt) r = (Inl e, r)"
  by (simp add: generate_secure_hash_def)


lemma encode_a: "encode [97] = Inr [0x61]"
  by (simp add: encode_char_def)

text \<open>
  Claim C10.  \<open>generate_secure_hash\<close> is deterministic once the salt is fixed: two calls with
  the same secret and the same explicitly supplied salt return the same result, whatever
  the states of the random source are, and such a call does not read the random source.
\<close>

theorem fixed_salt_deterministic:
  "fst (generate_secure_hash data (Some salt) r1) = fst (generate_secure_hash data (Some salt) r2)
   \<and> snd (generate_secure_hash data (Some salt) r1) = r1"
  by (cases "encode data")
     (simp_all add: generate_secure_hash_Some generate_secure_hash_raises)

text \<open>
  Claim C9.  For every secret that \<open>data.encode()\<close> accepts and every salt of 32 bytes,
  \<open>generate_secure_hash\<close> returns a verifier, and decoding the verifier as base64 gives
  exactly 64 bytes: the first 32 are the salt, the last 32 are the key that
  \<open>pbkdf2_hmac\<close> derives from the encoded secret and that salt with 100000 iterations.
\<close>

theorem verifier_layout:
  assumes "length salt = 32" and "encode data = Inr pw"
  shows "\<exists>v raw. fst (generate_secure_hash data (Some salt) r) = Inr v
       \<and> b64decode v = Inr raw
       \<and> length raw = 64
       \<and> take 32 raw = salt
       \<and> pbkdf2_hmac_sha256 pw salt 100000 = Inr (drop 32 raw)
       \<and> length (drop 32 raw) = 32"
proof -
  let ?key = "pbkdf2_block pw salt 100000"
  have v: "fst (generate_secure_hash data (Some salt) r) = Inr (b64encode (salt @ ?key))"
    using assms(2) by (simp add: generate_secure_hash_Some)
  have d: "b64decode (b64encode (salt @ ?key)) = Inr (salt @ ?key)"
    by (rule b64decode_b64encode)
  have l: "length (salt @ ?key) = 64"
    using assms(1) by (simp add: length_pbkdf2_block)
  have t: "take 32 (salt @ ?key) = salt" "drop 32 (salt @ ?key) = ?key"
    using assms(1) by simp_all
  have p: "pbkdf2_hmac_sha256 pw salt 100000 = Inr (drop 32 (salt @ ?key))"
    by (simp only: t pbkdf2_hmac_sha256_100000)
  have k: "length (drop 32 (salt @ ?key)) = 32"
    by (simp only: t length_pbkdf2_block)
  from v d l t(1) p k show ?thesis by blast
qed

theorem verifier_layout_witness:
  "length (replicate 32 (7 :: byte)) = 32 \<and> encode [97] = Inr [0x61]
   \<and> (\<exists>v raw. fst (generate_secure_hash [97] (Some (replicate 32 7)) \<lparr>source = of_nat, pos = 0\<rparr>)
          = Inr v
       \<and> b64decode v = Inr raw
       \<and> length raw = 64
       \<and> take 32 raw = replicate 32 7
       \<and> pbkdf2_hmac_sha256 [0x61] (replicate 32 7) 100000 = Inr (drop 32 raw)
       \<and> length (drop 32 raw) = 32)"
proof -
  have a: "length (replicate 32 (7 :: byte)) = 32" by simp
  from verifier_layout [OF a encode_a, of "\<lparr>source = of_nat, pos = 0\<rparr>"] a encode_a
  show ?thesis by blast
qed



end
